theory Spec2Isabelle
  imports Main "HOL-Library.Word"
begin

section \<open>The Go library functions the package calls\<close>

text \<open>
  The package \<^verbatim>\<open>configuration\<close> is one file, \<^verbatim>\<open>configuration.go\<close>. It calls
  \<^verbatim>\<open>strings.TrimSpace\<close>, \<^verbatim>\<open>strings.IndexAny\<close>, \<^verbatim>\<open>bufio.Scanner\<close>, \<^verbatim>\<open>os.Stat\<close>,
  \<^verbatim>\<open>os.Open\<close> and the \<^verbatim>\<open>time\<close> package. This section fixes what those do, on the
  data the package hands them. A Go string is a sequence of bytes, here a \<^typ>\<open>string\<close>
  (a list of 8-bit characters).
\<close>

subsection \<open>strings.TrimSpace\<close>

text \<open>
  \<^verbatim>\<open>strings.TrimSpace\<close> removes leading and trailing white space, as Unicode defines it
  (\<^verbatim>\<open>unicode.IsSpace\<close>): the runes U+0009 to U+000D, U+0020, U+0085, U+00A0, U+1680,
  U+2000 to U+200A, U+2028, U+2029, U+202F, U+205F and U+3000. Go decodes the bytes as
  UTF-8 and accepts only the shortest encoding of a rune, so a rune of this list is read
  at a position exactly when its UTF-8 encoding stands there; a byte sequence that is not
  valid UTF-8 decodes to U+FFFD, which is not white space.
\<close>

definition white_space_utf8 :: "string list" where
  "white_space_utf8 =
    [[CHR 0x09], [CHR 0x0A], [CHR 0x0B], [CHR 0x0C], [CHR 0x0D], [CHR 0x20],
     [CHR 0xC2, CHR 0x85], [CHR 0xC2, CHR 0xA0],
     [CHR 0xE1, CHR 0x9A, CHR 0x80],
     [CHR 0xE2, CHR 0x80, CHR 0x80], [CHR 0xE2, CHR 0x80, CHR 0x81],
     [CHR 0xE2, CHR 0x80, CHR 0x82], [CHR 0xE2, CHR 0x80, CHR 0x83],
     [CHR 0xE2, CHR 0x80, CHR 0x84], [CHR 0xE2, CHR 0x80, CHR 0x85],
     [CHR 0xE2, CHR 0x80, CHR 0x86], [CHR 0xE2, CHR 0x80, CHR 0x87],
     [CHR 0xE2, CHR 0x80, CHR 0x88], [CHR 0xE2, CHR 0x80, CHR 0x89],
     [CHR 0xE2, CHR 0x80, CHR 0x8A],
     [CHR 0xE2, CHR 0x80, CHR 0xA8], [CHR 0xE2, CHR 0x80, CHR 0xA9],
     [CHR 0xE2, CHR 0x80, CHR 0xAF],
     [CHR 0xE2, CHR 0x81, CHR 0x9F],
     [CHR 0xE3, CHR 0x80, CHR 0x80]]"

text \<open>
  The width in bytes of the encoding of the table that starts the string, and 0 when none
  does. No encoding of the table is a prefix of another, so at most one matches.
\<close>

fun space_width :: "string list \<Rightarrow> string \<Rightarrow> nat" where
  "space_width [] s = 0"
| "space_width (e # es) s = (if take (length e) s = e then length e else space_width es s)"

function strip_leading :: "string list \<Rightarrow> string \<Rightarrow> string" where
  "strip_leading tab s =
     (if s = [] \<or> space_width tab s = 0 then s
      else strip_leading tab (drop (space_width tab s) s))"
  by pat_completeness auto
termination
  by (relation "measure (\<lambda>(tab, s). length s)") auto

declare strip_leading.simps [simp del]

definition TrimLeftFunc :: "string \<Rightarrow> string" where
  "TrimLeftFunc s = strip_leading white_space_utf8 s"

text \<open>
  Trimming on the right reads the last rune of the string: the same table, matched
  against the end of the string.
\<close>

definition TrimRightFunc :: "string \<Rightarrow> string" where
  "TrimRightFunc s = rev (strip_leading (map rev white_space_utf8) (rev s))"

definition TrimSpace :: "string \<Rightarrow> string" where
  "TrimSpace s = TrimRightFunc (TrimLeftFunc s)"

subsection \<open>strings.IndexAny\<close>

text \<open>
  The index of the first byte of \<open>s\<close> that is one of \<open>chars\<close>; Go returns -1 when there
  is none, here \<open>None\<close>. The package passes the ASCII characters \<^verbatim>\<open>=\<close> and \<^verbatim>\<open>:\<close>, and an
  ASCII byte never lies inside the encoding of another rune, so the search is by bytes.
\<close>

fun IndexAny :: "string \<Rightarrow> string \<Rightarrow> nat option" where
  "IndexAny [] chars = None"
| "IndexAny (c # cs) chars =
     (if c \<in> set chars then Some 0 else map_option Suc (IndexAny cs chars))"

section \<open>The parser: SplitConfigurationFileLine\<close>

text \<open>
  \<^verbatim>\<open>ErrEmptyParameter\<close> is the package's sentinel error. The other error is made by
  \<^verbatim>\<open>errors.New("missing delimiter (':' or '=')")\<close> at each call, so it is never the
  sentinel. \<^verbatim>\<open>errors.Is\<close> on these two is equality.
\<close>

datatype parse_error = ErrEmptyParameter | ErrMissingDelimiter

definition errors_Is :: "parse_error \<Rightarrow> parse_error \<Rightarrow> bool" where
  "errors_Is err target = (err = target)"

definition SplitConfigurationFileLine :: "string \<Rightarrow> parse_error + string \<times> string" where
  "SplitConfigurationFileLine s0 =
     (let s = TrimSpace s0 in
      if length s = 0 then Inl ErrEmptyParameter
      else (case IndexAny s ''=:'' of
              None \<Rightarrow> Inl ErrMissingDelimiter
            | Some i \<Rightarrow> Inr (take i s, drop (i + 1) s)))"

subsection \<open>bufio.Scanner\<close>

text \<open>
  \<^verbatim>\<open>bufio.NewScanner\<close> splits its input with \<^verbatim>\<open>ScanLines\<close>: a token is the bytes up to
  the next newline, without the newline and without one carriage return before it; the
  bytes after the last newline are a token when there are any. The scanner's buffer
  holds at most \<^verbatim>\<open>MaxScanTokenSize\<close> bytes, so a line of that many bytes or more (its
  newline does not fit) makes \<^verbatim>\<open>Scan\<close> return false with \<^verbatim>\<open>ErrTooLong\<close>: the loop of
  \<^verbatim>\<open>update\<close> ends there, and \<^verbatim>\<open>update\<close> never reads \<^verbatim>\<open>scanner.Err()\<close>.
  \<open>scanner_tokens data\<close> are the values \<^verbatim>\<open>scanner.Text()\<close> takes, in order.
\<close>

definition MaxScanTokenSize :: nat where
  "MaxScanTokenSize = 64 * 1024"

definition dropCR :: "string \<Rightarrow> string" where
  "dropCR data = (if data \<noteq> [] \<and> last data = CHR 0x0D then butlast data else data)"

function scanner_tokens :: "string \<Rightarrow> string list" where
  "scanner_tokens data =
     (if data = [] then []
      else let line = takeWhile (\<lambda>c. c \<noteq> CHR 0x0A) data in
        if MaxScanTokenSize \<le> length line then []
        else dropCR line # scanner_tokens (drop (Suc (length line)) data))"
  by pat_completeness auto
termination
  by (relation "measure length") auto

declare scanner_tokens.simps [simp del]

subsection \<open>Time\<close>

text \<open>
  A \<^verbatim>\<open>time.Time\<close> without a monotonic reading is an instant: here the number of
  nanoseconds since the Unix epoch, an unbounded integer, since a \<^verbatim>\<open>Time\<close> keeps seconds
  and nanoseconds apart and so holds instants that \<^verbatim>\<open>int64\<close> nanoseconds do not. A value
  of this type stands for the \<^verbatim>\<open>ModTime()\<close> the package receives, an instant that a
  \<^verbatim>\<open>Time\<close> can hold.
  \<^verbatim>\<open>time.Unix(sec, nsec)\<close> is the instant \<open>sec\<close> seconds and \<open>nsec\<close> nanoseconds after
  the epoch, \<^verbatim>\<open>t.After(u)\<close> compares instants, and \<^verbatim>\<open>t.UnixNano()\<close> computes
  \<^verbatim>\<open>sec*1e9 + nsec\<close> in \<^verbatim>\<open>int64\<close>, which wraps outside the years 1678 to 2262.
\<close>

type_synonym Time = int

definition time_Unix :: "64 word \<Rightarrow> 64 word \<Rightarrow> Time" where
  "time_Unix sec nsec = sint sec * 1000000000 + sint nsec"

definition After :: "Time \<Rightarrow> Time \<Rightarrow> bool" where
  "After t u = (u < t)"

definition UnixNano :: "Time \<Rightarrow> 64 word" where
  "UnixNano t = word_of_int t"

subsection \<open>The file system and the log\<close>

text \<open>
  \<^verbatim>\<open>os.Stat\<close> and \<^verbatim>\<open>os.Open\<close> are the environment of a call: for each path, an error
  or the file's modification time, and an error or the bytes the scanner reads from the
  opened file. The two are independent, since a file can be statted and still not be
  opened (no read permission, or removed in between). \<^verbatim>\<open>errors.Is(err, os.ErrNotExist)\<close>
  is \<open>err = ErrNotExist\<close>.
\<close>

datatype os_error = ErrNotExist | ErrPermission | ErrOther string

record os_env =
  os_Stat :: "string \<Rightarrow> os_error + Time"
  os_Open :: "string \<Rightarrow> os_error + string"

text \<open>
  What a call does besides changing the store: the system calls it makes and the lines
  it hands to \<^verbatim>\<open>log.Printf\<close>, one constructor for each format string of the package.
\<close>

datatype log_msg =
    SetKeyValue_storing string string
  | SetKeyValue_updating string string string
  | Update_error_opening string os_error
  | update_error_parsing string parse_error
  | update_storing string string
  | update_updating string string string

datatype event = OsStat string | OsOpen string | Log log_msg

section \<open>The store\<close>

text \<open>
  The struct \<^verbatim>\<open>Configuration\<close>. The field \<^verbatim>\<open>parameters\<close> is a Go map, which is
  \<^verbatim>\<open>nil\<close> until it is made: \<open>None\<close> is the nil map, \<open>Some m\<close> an allocated one. The
  mutex is not a field here: the model is of one call at a time, which is what the
  mutex enforces.
\<close>

record Configuration =
  filename :: string
  lastupdate :: "64 word"
  parameters :: "(string \<rightharpoonup> string) option"
  ShouldLogUpdates :: bool

text \<open>
  A call returns, or panics. The only panic of the package is Go's
  \<^verbatim>\<open>assignment to entry in nil map\<close>; \<open>Panics\<close> holds the state the panic leaves behind
  (the deferred \<^verbatim>\<open>Unlock\<close> runs, the store stays as it is).
\<close>

datatype 'a outcome = Returns 'a | Panics 'a

fun state_of :: "'a outcome \<Rightarrow> 'a" where
  "state_of (Returns s) = s"
| "state_of (Panics s) = s"

fun returns :: "'a outcome \<Rightarrow> bool" where
  "returns (Returns s) = True"
| "returns (Panics s) = False"

text \<open>
  Reading a map, \<^verbatim>\<open>stored, found := m[key]\<close>: a nil map has no entry. Writing a map,
  \<^verbatim>\<open>m[key] = value\<close>: a nil map panics.
\<close>

definition map_index :: "(string \<rightharpoonup> string) option \<Rightarrow> string \<Rightarrow> string option" where
  "map_index m key = (case m of None \<Rightarrow> None | Some m' \<Rightarrow> m' key)"

definition map_assign ::
  "Configuration \<times> event list \<Rightarrow> string \<Rightarrow> string \<Rightarrow> (Configuration \<times> event list) outcome" where
  "map_assign st key val =
     (case parameters (fst st) of
        None \<Rightarrow> Panics st
      | Some m \<Rightarrow> Returns ((fst st)\<lparr>parameters := Some (m(key \<mapsto> val))\<rparr>, snd st))"

definition SetKeyValue ::
  "Configuration \<Rightarrow> string \<Rightarrow> string \<Rightarrow> (Configuration \<times> event list) outcome" where
  "SetKeyValue c key val =
     (let found = (map_index (parameters c) key \<noteq> None);
          stored = (case map_index (parameters c) key of Some v \<Rightarrow> v | None \<Rightarrow> [])
      in if found \<and> stored = val then Returns (c, [])
         else if \<not> found \<and> ShouldLogUpdates c
           then map_assign (c, [Log (SetKeyValue_storing key val)]) key val
         else if found \<and> ShouldLogUpdates c
           then map_assign (c, [Log (SetKeyValue_updating key stored val)]) key val
         else map_assign (c, []) key val)"

definition Get :: "Configuration \<Rightarrow> string \<Rightarrow> string" where
  "Get c key = (case map_index (parameters c) key of Some v \<Rightarrow> v | None \<Rightarrow> [])"

definition GetSlice :: "Configuration \<Rightarrow> string list \<Rightarrow> string list" where
  "GetSlice c keys = foldl (\<lambda>results key. results @ [Get c key]) [] keys"

section \<open>The reconciler: update\<close>

text \<open>
  The loop \<^verbatim>\<open>for scanner.Scan()\<close> of \<^verbatim>\<open>update\<close>, over the tokens still to come. Its state
  is the store and the events so far.
\<close>

fun scan_loop ::
  "string list \<Rightarrow> Configuration \<times> event list \<Rightarrow> (Configuration \<times> event list) outcome" where
  "scan_loop [] st = Returns st"
| "scan_loop (text # rest) st =
     (case SplitConfigurationFileLine text of
        Inl err \<Rightarrow>
          if \<not> errors_Is err ErrEmptyParameter \<and> ShouldLogUpdates (fst st)
          then scan_loop rest (fst st, snd st @ [Log (update_error_parsing text err)])
          else scan_loop rest st
      | Inr split \<Rightarrow>
          (let found = (map_index (parameters (fst st)) (fst split) \<noteq> None);
               stored = (case map_index (parameters (fst st)) (fst split) of
                           Some v \<Rightarrow> v | None \<Rightarrow> [])
           in if found \<and> stored = snd split then scan_loop rest st
              else (case map_assign
                      (fst st, snd st @
                        (if \<not> found \<and> ShouldLogUpdates (fst st)
                           then [Log (update_storing (fst split) (snd split))]
                         else if found \<and> ShouldLogUpdates (fst st)
                           then [Log (update_updating (fst split) stored (snd split))]
                         else []))
                      (fst split) (snd split) of
                      Panics st' \<Rightarrow> Panics st'
                    | Returns st' \<Rightarrow> scan_loop rest st')))"

definition update :: "os_env \<Rightarrow> Configuration \<Rightarrow> (Configuration \<times> event list) outcome" where
  "update env c =
     (case os_Stat env (filename c) of
        Inl err \<Rightarrow>
          if err \<noteq> ErrNotExist
          then Returns (c, [OsStat (filename c), Log (Update_error_opening (filename c) err)])
          else Returns (c, [OsStat (filename c)])
      | Inr modTime \<Rightarrow>
          if \<not> After modTime (time_Unix 0 (lastupdate c))
          then Returns (c, [OsStat (filename c)])
          else (case os_Open env (filename c) of
                  Inl err \<Rightarrow>
                    Returns (c, [OsStat (filename c), OsOpen (filename c),
                                 Log (Update_error_opening (filename c) err)])
                | Inr contents \<Rightarrow>
                    (case scan_loop (scanner_tokens contents)
                            (c, [OsStat (filename c), OsOpen (filename c)]) of
                       Panics st \<Rightarrow> Panics st
                     | Returns st \<Rightarrow>
                         Returns ((fst st)\<lparr>lastupdate := UnixNano modTime\<rparr>, snd st))))"

definition Update :: "os_env \<Rightarrow> Configuration \<Rightarrow> (Configuration \<times> event list) outcome" where
  "Update env c = update env c"

definition SetFilename ::
  "os_env \<Rightarrow> Configuration \<Rightarrow> string \<Rightarrow> (Configuration \<times> event list) outcome" where
  "SetFilename env c name =
     update env (if filename c \<noteq> name then c\<lparr>filename := name, lastupdate := 0\<rparr> else c)"

section \<open>The constructors\<close>

text \<open>
  \<^verbatim>\<open>NewWithContext\<close> builds the struct from the file name alone (every other field is
  its zero value: \<^verbatim>\<open>lastupdate\<close> 0, \<^verbatim>\<open>parameters\<close> the nil map), stores the logging flag,
  runs \<^verbatim>\<open>update\<close> once and starts the goroutine that calls \<^verbatim>\<open>Update\<close> at every tick.
  The package variable \<^verbatim>\<open>DefaultShouldLog\<close> is an argument here; the context only
  stops the goroutine. When \<^verbatim>\<open>update\<close> panics, so does the constructor, and no store
  is returned.
\<close>

definition NewWithContext ::
  "os_env \<Rightarrow> bool \<Rightarrow> string \<Rightarrow> bool list \<Rightarrow> (Configuration \<times> event list) outcome" where
  "NewWithContext env DefaultShouldLog name shouldLog =
     update env
       \<lparr>filename = name, lastupdate = 0, parameters = None,
        ShouldLogUpdates =
          (if length shouldLog = 1 then shouldLog ! 0 else DefaultShouldLog)\<rparr>"

definition New ::
  "os_env \<Rightarrow> bool \<Rightarrow> string \<Rightarrow> bool list \<Rightarrow> (Configuration \<times> event list) outcome" where
  "New env DefaultShouldLog name shouldLog = NewWithContext env DefaultShouldLog name shouldLog"

section \<open>Notions the properties are stated with\<close>

text \<open>
  The value a run of the scan loop leaves for a key: that of the last token that parses
  to this key, if there is one.
\<close>

fun last_binding :: "string list \<Rightarrow> string \<Rightarrow> string option" where
  "last_binding [] key = None"
| "last_binding (text # rest) key =
     (case last_binding rest key of
        Some v \<Rightarrow> Some v
      | None \<Rightarrow>
          (case SplitConfigurationFileLine text of
             Inl err \<Rightarrow> None
           | Inr split \<Rightarrow> if fst split = key then Some (snd split) else None))"

text \<open>The keys the tokens supply, and the keys the file at a path supplies.\<close>

fun supplied_keys :: "string list \<Rightarrow> string list" where
  "supplied_keys [] = []"
| "supplied_keys (text # rest) =
     (case SplitConfigurationFileLine text of
        Inl err \<Rightarrow> supplied_keys rest
      | Inr split \<Rightarrow> fst split # supplied_keys rest)"

definition file_keys :: "os_env \<Rightarrow> string \<Rightarrow> string list" where
  "file_keys env name =
     (case os_Open env name of
        Inl err \<Rightarrow> []
      | Inr contents \<Rightarrow> supplied_keys (scanner_tokens contents))"

text \<open>The system calls among the events of a call, in order.\<close>

fun is_os_call :: "event \<Rightarrow> bool" where
  "is_os_call (OsStat p) = True"
| "is_os_call (OsOpen p) = True"
| "is_os_call (Log m) = False"

definition os_calls :: "event list \<Rightarrow> event list" where
  "os_calls evs = filter is_os_call evs"

text \<open>The struct that \<^verbatim>\<open>NewWithContext\<close> builds before it runs \<^verbatim>\<open>update\<close>.\<close>

definition fresh :: "string \<Rightarrow> bool \<Rightarrow> Configuration" where
  "fresh name log =
     \<lparr>filename = name, lastupdate = 0, parameters = None, ShouldLogUpdates = log\<rparr>"

subsection \<open>Concrete files and stores\<close>

text \<open>
  A file \<^verbatim>\<open>app.conf\<close> of two lines, \<^verbatim>\<open>a=1\<close> and \<^verbatim>\<open>b=2\<close>, last modified on
  2023-11-14 (1700000000 seconds after the epoch); no other path exists.
\<close>

definition app_conf :: string where
  "app_conf = ''a=1'' @ [CHR 0x0A] @ ''b=2''"

definition env_app :: os_env where
  "env_app =
     \<lparr>os_Stat = (\<lambda>p. if p = ''app.conf'' then Inr 1700000000000000000 else Inl ErrNotExist),
      os_Open = (\<lambda>p. if p = ''app.conf'' then Inr app_conf else Inl ErrNotExist)\<rparr>"

text \<open>
  The same path holding one line without a delimiter, with a modification time of
  \<open>2 ^ 63\<close> nanoseconds after the epoch (2262-04-11, the first instant that
  \<^verbatim>\<open>int64\<close> nanoseconds cannot hold).
\<close>

definition env_far :: os_env where
  "env_far =
     \<lparr>os_Stat = (\<lambda>p. if p = ''app.conf'' then Inr 9223372036854775808 else Inl ErrNotExist),
      os_Open = (\<lambda>p. if p = ''app.conf'' then Inr ''# no settings'' else Inl ErrNotExist)\<rparr>"

text \<open>
  A file \<^verbatim>\<open>new.conf\<close> holding the line \<^verbatim>\<open>a=1\<close> whose modification time is the epoch
  itself (as archives and reproducible builds set it).
\<close>

definition env_epoch :: os_env where
  "env_epoch =
     \<lparr>os_Stat = (\<lambda>p. if p = ''new.conf'' then Inr 0 else Inl ErrNotExist),
      os_Open = (\<lambda>p. if p = ''new.conf'' then Inr ''a=1'' else Inl ErrNotExist)\<rparr>"

text \<open>
  Two stores with an allocated map. No exported function of the package makes the map,
  so such a store exists only where code inside the package has set the field; the
  methods are written for it all the same. The first was loaded from \<^verbatim>\<open>old.conf\<close> at a
  time later than the modification time of \<^verbatim>\<open>app.conf\<close>.
\<close>

definition old_store :: Configuration where
  "old_store =
     \<lparr>filename = ''old.conf'', lastupdate = 1800000000000000000,
      parameters = Some [''a'' \<mapsto> ''0'', ''c'' \<mapsto> ''3''], ShouldLogUpdates = False\<rparr>"

text \<open>The second loaded \<^verbatim>\<open>app.conf\<close> in 2020, before the file was last modified.\<close>

definition app_store :: Configuration where
  "app_store =
     \<lparr>filename = ''app.conf'', lastupdate = 1600000000000000000,
      parameters = Some [''a'' \<mapsto> ''0''], ShouldLogUpdates = True\<rparr>"

section \<open>The parser\<close>

lemma IndexAny_first:
  "set key \<inter> set chars = {} \<Longrightarrow> d \<in> set chars \<Longrightarrow>
     IndexAny (key @ d # val) chars = Some (length key)"
  by (induction key) auto

lemma IndexAny_None: "(IndexAny s chars = None) = (set s \<inter> set chars = {})"
  by (induction s) auto

lemma split_first_delimiter:
  assumes "TrimSpace line = key @ d # val" and "d = CHR ''='' \<or> d = CHR '':''"
    and "CHR ''='' \<notin> set key" and "CHR '':'' \<notin> set key"
  shows "SplitConfigurationFileLine line = Inr (key, val)"
proof -
  have "IndexAny (key @ d # val) ''=:'' = Some (length key)"
    using assms(2-4) by (intro IndexAny_first) auto
  with assms(1) show ?thesis
    by (simp add: SplitConfigurationFileLine_def Let_def)
qed

lemma first_delimiter_exists:
  assumes "CHR ''='' \<in> set s \<or> CHR '':'' \<in> set s"
  shows "\<exists>key d val. s = key @ d # val \<and> (d = CHR ''='' \<or> d = CHR '':'')
            \<and> CHR ''='' \<notin> set key \<and> CHR '':'' \<notin> set key"
proof -
  from assms have "\<exists>c\<in>set s. c = CHR ''='' \<or> c = CHR '':''" by auto
  from split_list_first_prop [OF this]
  obtain key d val where "s = key @ d # val" "d = CHR ''='' \<or> d = CHR '':''"
    "\<forall>c\<in>set key. \<not> (c = CHR ''='' \<or> c = CHR '':'')" by blast
  then show ?thesis by blast
qed

lemma split_empty:
  "TrimSpace line = [] \<Longrightarrow> SplitConfigurationFileLine line = Inl ErrEmptyParameter"
  by (simp add: SplitConfigurationFileLine_def)

lemma split_no_delimiter:
  "TrimSpace line \<noteq> [] \<Longrightarrow> CHR ''='' \<notin> set (TrimSpace line) \<Longrightarrow>
     CHR '':'' \<notin> set (TrimSpace line) \<Longrightarrow>
     SplitConfigurationFileLine line = Inl ErrMissingDelimiter"
  using IndexAny_None [of "TrimSpace line" "''=:''"]
  by (simp add: SplitConfigurationFileLine_def Let_def)

text \<open>A line made of white space only is trimmed to the empty string.\<close>

lemma entry_nonempty: "e \<in> set white_space_utf8 \<Longrightarrow> e \<noteq> []"
  unfolding white_space_utf8_def by (elim disjE | simp)+

lemma space_width_entry:
  "e \<in> set white_space_utf8 \<Longrightarrow> space_width white_space_utf8 (e @ rest) = length e"
  unfolding white_space_utf8_def set_simps insert_iff empty_iff
  by (elim disjE; simp)

lemma strip_leading_entry:
  assumes "e \<in> set white_space_utf8"
  shows "strip_leading white_space_utf8 (e @ rest) = strip_leading white_space_utf8 rest"
  using space_width_entry [OF assms, of rest] entry_nonempty [OF assms]
  by (subst strip_leading.simps) simp

lemma TrimLeftFunc_white_space:
  "set ws \<subseteq> set white_space_utf8 \<Longrightarrow> TrimLeftFunc (concat ws) = []"
proof (induction ws)
  case Nil
  show ?case by (simp add: TrimLeftFunc_def strip_leading.simps)
next
  case (Cons e ws)
  then show ?case by (simp add: TrimLeftFunc_def strip_leading_entry)
qed

lemma TrimSpace_white_space:
  "set ws \<subseteq> set white_space_utf8 \<Longrightarrow> TrimSpace (concat ws) = []"
  by (simp add: TrimSpace_def TrimLeftFunc_white_space TrimRightFunc_def strip_leading.simps)

text \<open>Lines evaluated.\<close>

lemma TrimSpace_host: "TrimSpace '' host = example.org:80 '' = ''host = example.org:80''"
  by code_simp

lemma TrimSpace_kv: "TrimSpace ''k=v'' = ''k=v'' \<and> TrimSpace ''k:v'' = ''k:v''"
  by code_simp

lemma TrimSpace_comment: "TrimSpace ''# no settings'' = ''# no settings''"
  by code_simp

lemma TrimSpace_blank: "TrimSpace [CHR 0x20, CHR 0x09, CHR 0x0D] = []"
  by code_simp

text \<open>
  C6. Whenever the trimmed line is not empty and holds a \<^verbatim>\<open>=\<close> or a \<^verbatim>\<open>:\<close>, the parser
  succeeds: the trimmed line is \<open>key @ d # val\<close> with \<open>d\<close> a delimiter and no delimiter in
  \<open>key\<close> (so \<open>d\<close> is the first one, of either kind), and the result is \<open>(key, val)\<close>,
  neither trimmed again. The lines \<^verbatim>\<open>k=v\<close> and \<^verbatim>\<open>k:v\<close> give key \<^verbatim>\<open>k\<close> and value \<^verbatim>\<open>v\<close>.
\<close>

theorem split_at_first_delimiter:
  "(TrimSpace line \<noteq> [] \<and> (CHR ''='' \<in> set (TrimSpace line) \<or> CHR '':'' \<in> set (TrimSpace line))
      \<longrightarrow> (\<exists>key d val. TrimSpace line = key @ d # val \<and> (d = CHR ''='' \<or> d = CHR '':'')
             \<and> CHR ''='' \<notin> set key \<and> CHR '':'' \<notin> set key
             \<and> SplitConfigurationFileLine line = Inr (key, val)))
   \<and> SplitConfigurationFileLine ''k=v'' = Inr (''k'', ''v'')
   \<and> SplitConfigurationFileLine ''k:v'' = Inr (''k'', ''v'')"
proof (intro conjI impI)
  assume a: "TrimSpace line \<noteq> [] \<and>
    (CHR ''='' \<in> set (TrimSpace line) \<or> CHR '':'' \<in> set (TrimSpace line))"
  then obtain key d val where
    t: "TrimSpace line = key @ d # val" and d: "d = CHR ''='' \<or> d = CHR '':''"
    and k: "CHR ''='' \<notin> set key" "CHR '':'' \<notin> set key"
    using first_delimiter_exists [of "TrimSpace line"] by blast
  from split_first_delimiter [OF t d k] t d k
  show "\<exists>key d val. TrimSpace line = key @ d # val \<and> (d = CHR ''='' \<or> d = CHR '':'')
          \<and> CHR ''='' \<notin> set key \<and> CHR '':'' \<notin> set key
          \<and> SplitConfigurationFileLine line = Inr (key, val)"
    by blast
next
  have "TrimSpace ''k=v'' = ''k'' @ CHR ''='' # ''v''" using TrimSpace_kv by simp
  then show "SplitConfigurationFileLine ''k=v'' = Inr (''k'', ''v'')"
    by (rule split_first_delimiter) simp_all
next
  have "TrimSpace ''k:v'' = ''k'' @ CHR '':'' # ''v''" using TrimSpace_kv by simp
  then show "SplitConfigurationFileLine ''k:v'' = Inr (''k'', ''v'')"
    by (rule split_first_delimiter) simp_all
qed

theorem split_at_first_delimiter_witness:
  "TrimSpace '' host = example.org:80 '' \<noteq> []
   \<and> (CHR ''='' \<in> set (TrimSpace '' host = example.org:80 '')
        \<or> CHR '':'' \<in> set (TrimSpace '' host = example.org:80 ''))
   \<and> (\<exists>key d val. TrimSpace '' host = example.org:80 '' = key @ d # val
         \<and> (d = CHR ''='' \<or> d = CHR '':'')
         \<and> CHR ''='' \<notin> set key \<and> CHR '':'' \<notin> set key
         \<and> SplitConfigurationFileLine '' host = example.org:80 '' = Inr (key, val))
   \<and> SplitConfigurationFileLine '' host = example.org:80 '' = Inr (''host '', '' example.org:80'')"
proof -
  have h: "TrimSpace '' host = example.org:80 '' \<noteq> [] \<and>
    (CHR ''='' \<in> set (TrimSpace '' host = example.org:80 '')
      \<or> CHR '':'' \<in> set (TrimSpace '' host = example.org:80 ''))"
    by (simp add: TrimSpace_host)
  from split_at_first_delimiter [of "'' host = example.org:80 ''"] h
  have e: "\<exists>key d val. TrimSpace '' host = example.org:80 '' = key @ d # val
         \<and> (d = CHR ''='' \<or> d = CHR '':'')
         \<and> CHR ''='' \<notin> set key \<and> CHR '':'' \<notin> set key
         \<and> SplitConfigurationFileLine '' host = example.org:80 '' = Inr (key, val)"
    by blast
  have "TrimSpace '' host = example.org:80 '' = ''host '' @ CHR ''='' # '' example.org:80''"
    by (simp add: TrimSpace_host)
  then have "SplitConfigurationFileLine '' host = example.org:80 ''
      = Inr (''host '', '' example.org:80'')"
    by (rule split_first_delimiter) simp_all
  with h e show ?thesis by blast
qed

text \<open>
  C7. A line that is empty after trimming (in particular a line of white space only)
  fails with \<^verbatim>\<open>ErrEmptyParameter\<close>; a line that is not empty after trimming and holds
  neither \<^verbatim>\<open>=\<close> nor \<^verbatim>\<open>:\<close> fails with the missing-delimiter error; and
  \<^verbatim>\<open>errors.Is(err, ErrEmptyParameter)\<close> tells the two apart.
\<close>

theorem split_failures:
  "(TrimSpace line = [] \<longrightarrow> SplitConfigurationFileLine line = Inl ErrEmptyParameter)
   \<and> (set ws \<subseteq> set white_space_utf8 \<longrightarrow>
        SplitConfigurationFileLine (concat ws) = Inl ErrEmptyParameter)
   \<and> (TrimSpace line \<noteq> [] \<and> CHR ''='' \<notin> set (TrimSpace line) \<and> CHR '':'' \<notin> set (TrimSpace line)
        \<longrightarrow> SplitConfigurationFileLine line = Inl ErrMissingDelimiter)
   \<and> errors_Is ErrEmptyParameter ErrEmptyParameter
   \<and> \<not> errors_Is ErrMissingDelimiter ErrEmptyParameter"
  by (simp add: split_empty split_no_delimiter TrimSpace_white_space errors_Is_def)

theorem split_failures_witness:
  "TrimSpace [CHR 0x20, CHR 0x09, CHR 0x0D] = []
   \<and> SplitConfigurationFileLine [CHR 0x20, CHR 0x09, CHR 0x0D] = Inl ErrEmptyParameter
   \<and> set [[CHR 0x20], [CHR 0xC2, CHR 0xA0]] \<subseteq> set white_space_utf8
   \<and> SplitConfigurationFileLine (concat [[CHR 0x20], [CHR 0xC2, CHR 0xA0]]) = Inl ErrEmptyParameter
   \<and> TrimSpace ''# no settings'' \<noteq> []
   \<and> CHR ''='' \<notin> set (TrimSpace ''# no settings'')
   \<and> CHR '':'' \<notin> set (TrimSpace ''# no settings'')
   \<and> SplitConfigurationFileLine ''# no settings'' = Inl ErrMissingDelimiter"
proof -
  have ws: "set [[CHR 0x20], [CHR 0xC2, CHR 0xA0]] \<subseteq> set white_space_utf8"
    by (simp add: white_space_utf8_def)
  have c: "TrimSpace ''# no settings'' \<noteq> [] \<and> CHR ''='' \<notin> set (TrimSpace ''# no settings'')
     \<and> CHR '':'' \<notin> set (TrimSpace ''# no settings'')"
    by (simp add: TrimSpace_comment)
  from split_failures [of "[CHR 0x20, CHR 0x09, CHR 0x0D]" "[[CHR 0x20], [CHR 0xC2, CHR 0xA0]]"]
    split_failures [of "''# no settings''" "[]"] ws c TrimSpace_blank
  show ?thesis by blast
qed

section \<open>The scan loop\<close>

text \<open>
  The loop changes only the map and appends only log lines; on a nil map it returns
  exactly when no token parses, on an allocated map always; and when it returns, each key
  holds the value of the last token that parsed to it.
\<close>

lemma scan_loop_fields:
  "filename (fst (state_of (scan_loop ts st))) = filename (fst st)
   \<and> lastupdate (fst (state_of (scan_loop ts st))) = lastupdate (fst st)
   \<and> ShouldLogUpdates (fst (state_of (scan_loop ts st))) = ShouldLogUpdates (fst st)"
  by (induction ts arbitrary: st)
     (auto simp: Let_def map_assign_def split: sum.splits option.splits outcome.splits)

lemma scan_loop_os_calls:
  "os_calls (snd (state_of (scan_loop ts st))) = os_calls (snd st)"
  by (induction ts arbitrary: st)
     (auto simp: Let_def map_assign_def os_calls_def split: sum.splits option.splits outcome.splits)

lemma scan_loop_nil_map:
  "parameters (fst st) = None \<Longrightarrow> parameters (fst (state_of (scan_loop ts st))) = None"
  by (induction ts arbitrary: st)
     (auto simp: Let_def map_assign_def map_index_def split: sum.splits option.splits outcome.splits)

lemma scan_loop_nil_map_returns:
  "parameters (fst st) = None \<Longrightarrow> returns (scan_loop ts st) = (supplied_keys ts = [])"
  by (induction ts arbitrary: st)
     (auto simp: Let_def map_assign_def map_index_def split: sum.splits option.splits outcome.splits)

lemma scan_loop_no_keys:
  "supplied_keys ts = [] \<Longrightarrow>
     returns (scan_loop ts st) \<and> parameters (fst (state_of (scan_loop ts st))) = parameters (fst st)"
  by (induction ts arbitrary: st)
     (auto simp: Let_def split: sum.splits)

lemma scan_loop_allocated:
  "parameters (fst st) \<noteq> None \<Longrightarrow>
     returns (scan_loop ts st) \<and> parameters (fst (state_of (scan_loop ts st))) \<noteq> None"
  by (induction ts arbitrary: st)
     (auto simp: Let_def map_assign_def split: sum.splits option.splits outcome.splits)

lemma scan_loop_bindings:
  "scan_loop ts st = Returns st' \<Longrightarrow>
     map_index (parameters (fst st')) k =
       (case last_binding ts k of Some v \<Rightarrow> Some v | None \<Rightarrow> map_index (parameters (fst st)) k)"
proof (induction ts arbitrary: st)
  case Nil
  then show ?case by simp
next
  case (Cons t ts)
  show ?case
  proof (cases "SplitConfigurationFileLine t")
    case (Inl err)
    with Cons.prems have "scan_loop ts (fst st, snd st @ [Log (update_error_parsing t err)]) = Returns st'
        \<or> scan_loop ts st = Returns st'"
      by (simp split: if_splits)
    then show ?thesis
    proof
      assume r: "scan_loop ts (fst st, snd st @ [Log (update_error_parsing t err)]) = Returns st'"
      from Cons.IH [OF r] Inl show ?thesis by (simp split: option.splits)
    next
      assume r: "scan_loop ts st = Returns st'"
      from Cons.IH [OF r] Inl show ?thesis by (simp split: option.splits)
    qed
  next
    case (Inr split)
    show ?thesis
    proof (cases "map_index (parameters (fst st)) (fst split) = Some (snd split)")
      case True
      with Cons.prems Inr have "scan_loop ts st = Returns st'" by (simp add: Let_def)
      from Cons.IH [OF this] True Inr show ?thesis by (auto split: option.splits)
    next
      case False
      with Cons.prems Inr obtain m evs where
        m: "parameters (fst st) = Some m"
        and r: "scan_loop ts ((fst st)\<lparr>parameters := Some (m(fst split \<mapsto> snd split))\<rparr>, evs) = Returns st'"
        by (auto simp: Let_def map_assign_def split: option.splits outcome.splits if_splits)
      from Cons.IH [OF r] m Inr show ?thesis
        by (auto simp: map_index_def split: option.splits)
    qed
  qed
qed

lemma last_binding_None:
  "k \<notin> set (supplied_keys ts) \<Longrightarrow> last_binding ts k = None"
  by (induction ts) (auto split: sum.splits option.splits)

section \<open>The reconciler\<close>

lemma After_Unix: "After t (time_Unix 0 n) = (sint n < t)"
  by (simp add: After_def time_Unix_def)

lemma outcome_case_state:
  "state_of (case r of Returns st \<Rightarrow> Returns (f st) | Panics st \<Rightarrow> Panics st)
     = (if returns r then f (state_of r) else state_of r)"
  by (cases r) simp_all

lemma outcome_case_returns:
  "returns (case r of Returns st \<Rightarrow> Returns (f st) | Panics st \<Rightarrow> Panics st) = returns r"
  by (cases r) simp_all

text \<open>
  The four ways through \<^verbatim>\<open>update\<close>: the stat fails, the file is not newer, the open
  fails, or the file is scanned.
\<close>

lemma update_stat_fails:
  "os_Stat env (filename c) = Inl err \<Longrightarrow>
     update env c = Returns (c, OsStat (filename c) #
       (if err \<noteq> ErrNotExist then [Log (Update_error_opening (filename c) err)] else []))"
  by (simp add: update_def)

lemma update_not_after:
  "os_Stat env (filename c) = Inr modTime \<Longrightarrow> \<not> sint (lastupdate c) < modTime \<Longrightarrow>
     update env c = Returns (c, [OsStat (filename c)])"
  by (simp add: update_def After_Unix)

lemma update_open_fails:
  "os_Stat env (filename c) = Inr modTime \<Longrightarrow> sint (lastupdate c) < modTime \<Longrightarrow>
   os_Open env (filename c) = Inl err \<Longrightarrow>
     update env c = Returns (c, [OsStat (filename c), OsOpen (filename c),
                                 Log (Update_error_opening (filename c) err)])"
  by (simp add: update_def After_Unix)

lemma update_scans:
  "os_Stat env (filename c) = Inr modTime \<Longrightarrow> sint (lastupdate c) < modTime \<Longrightarrow>
   os_Open env (filename c) = Inr contents \<Longrightarrow>
     update env c =
       (case scan_loop (scanner_tokens contents) (c, [OsStat (filename c), OsOpen (filename c)]) of
          Returns st \<Rightarrow> Returns ((fst st)\<lparr>lastupdate := UnixNano modTime\<rparr>, snd st)
        | Panics st \<Rightarrow> Panics st)"
  by (simp add: update_def After_Unix split: outcome.splits)

lemma update_cases:
  obtains (stat_fails) err where "os_Stat env (filename c) = Inl err"
  | (not_after) modTime where "os_Stat env (filename c) = Inr modTime" "\<not> sint (lastupdate c) < modTime"
  | (open_fails) modTime err where "os_Stat env (filename c) = Inr modTime"
      "sint (lastupdate c) < modTime" "os_Open env (filename c) = Inl err"
  | (scans) modTime contents where "os_Stat env (filename c) = Inr modTime"
      "sint (lastupdate c) < modTime" "os_Open env (filename c) = Inr contents"
  by (cases "os_Stat env (filename c)"; cases "os_Open env (filename c)") force+

lemma update_fields:
  "filename (fst (state_of (update env c))) = filename c
   \<and> ShouldLogUpdates (fst (state_of (update env c))) = ShouldLogUpdates c"
proof (cases rule: update_cases [of env c])
  case (scans modTime contents)
  then show ?thesis
    using scan_loop_fields [of "scanner_tokens contents" "(c, [OsStat (filename c), OsOpen (filename c)])"]
    by (simp add: update_scans outcome_case_state)
qed (simp_all add: update_stat_fails update_not_after update_open_fails)

lemma update_os_calls:
  "os_Stat env (filename c) = Inr modTime \<Longrightarrow>
     os_calls (snd (state_of (update env c))) =
       (if sint (lastupdate c) < modTime then [OsStat (filename c), OsOpen (filename c)]
        else [OsStat (filename c)])"
proof (cases rule: update_cases [of env c])
  case (scans modTime' contents)
  assume "os_Stat env (filename c) = Inr modTime"
  with scans show ?thesis
    using scan_loop_os_calls [of "scanner_tokens contents" "(c, [OsStat (filename c), OsOpen (filename c)])"]
    by (simp add: update_scans outcome_case_state) (simp add: os_calls_def)
qed (auto simp add: update_stat_fails update_not_after update_open_fails os_calls_def)

lemma update_nil_map:
  "parameters c = None \<Longrightarrow> parameters (fst (state_of (update env c))) = None"
proof (cases rule: update_cases [of env c])
  case (scans modTime contents)
  assume "parameters c = None"
  with scans show ?thesis
    using scan_loop_nil_map [of "(c, [OsStat (filename c), OsOpen (filename c)])" "scanner_tokens contents"]
    by (simp add: update_scans outcome_case_state)
qed (simp_all add: update_stat_fails update_not_after update_open_fails)

lemma update_bindings:
  assumes "os_Stat env (filename c) = Inr modTime" "sint (lastupdate c) < modTime"
    "os_Open env (filename c) = Inr contents" "update env c = Returns (c', evs)"
  shows "map_index (parameters c') k =
       (case last_binding (scanner_tokens contents) k of
          Some v \<Rightarrow> Some v | None \<Rightarrow> map_index (parameters c) k)"
    and "lastupdate c' = UnixNano modTime"
proof -
  from assms obtain st where
    r: "scan_loop (scanner_tokens contents) (c, [OsStat (filename c), OsOpen (filename c)]) = Returns st"
    and c': "c' = (fst st)\<lparr>lastupdate := UnixNano modTime\<rparr>"
    by (auto simp: update_scans split: outcome.splits)
  from scan_loop_bindings [OF r, of k] c'
  show "map_index (parameters c') k =
       (case last_binding (scanner_tokens contents) k of
          Some v \<Rightarrow> Some v | None \<Rightarrow> map_index (parameters c) k)"
    by (simp split: option.splits)
  from c' show "lastupdate c' = UnixNano modTime" by simp
qed

lemma update_allocated:
  "parameters c \<noteq> None \<Longrightarrow> returns (update env c)"
proof (cases rule: update_cases [of env c])
  case (scans modTime contents)
  assume "parameters c \<noteq> None"
  with scans show ?thesis
    using scan_loop_allocated [of "(c, [OsStat (filename c), OsOpen (filename c)])" "scanner_tokens contents"]
    by (simp add: update_scans outcome_case_returns)
qed (simp_all add: update_stat_fails update_not_after update_open_fails)

lemma update_keeps:
  assumes "map_index (parameters c) k = Some v"
  shows "\<exists>v'. map_index (parameters (fst (state_of (update env c)))) k = Some v'
           \<and> (k \<notin> set (file_keys env (filename c)) \<longrightarrow> v' = v)"
proof (cases rule: update_cases [of env c])
  case (scans modTime contents)
  from assms have "parameters c \<noteq> None" by (auto simp: map_index_def split: option.splits)
  then have "returns (update env c)" by (rule update_allocated)
  then obtain c' evs where r: "update env c = Returns (c', evs)"
    by (cases "update env c") auto
  from update_bindings(1) [OF scans r, of k] assms r scans(3)
  show ?thesis
    by (auto simp: file_keys_def last_binding_None split: option.splits)
qed (simp_all add: update_stat_fails update_not_after update_open_fails assms)

section \<open>Values of the concrete files\<close>

lemma tokens_app: "scanner_tokens app_conf = [''a=1'', ''b=2'']"
  by code_simp

lemma tokens_comment: "scanner_tokens ''# no settings'' = [''# no settings'']"
  by code_simp

lemma tokens_a1: "scanner_tokens ''a=1'' = [''a=1'']"
  by code_simp

lemma split_a1: "SplitConfigurationFileLine ''a=1'' = Inr (''a'', ''1'')"
  by code_simp

lemma split_b2: "SplitConfigurationFileLine ''b=2'' = Inr (''b'', ''2'')"
  by code_simp

lemma split_comment: "SplitConfigurationFileLine ''# no settings'' = Inl ErrMissingDelimiter"
  by code_simp

lemma sint_2020: "sint (1600000000000000000 :: 64 word) = 1600000000000000000"
  by code_simp

lemma sint_2023: "sint (1700000000000000000 :: 64 word) = 1700000000000000000"
  by code_simp


lemma UnixNano_far: "sint (UnixNano 9223372036854775808) = - 9223372036854775808"
  by code_simp

lemma UnixNano_in_range:
  "- (2 ^ 63) \<le> t \<Longrightarrow> t < 2 ^ 63 \<Longrightarrow> sint (UnixNano t) = t"
  unfolding UnixNano_def
  by (simp add: sint_sbintrunc' signed_take_bit_int_eq_self)

section \<open>Properties of the store\<close>

text \<open>
  C8. When the map already holds exactly this value for the key, \<^verbatim>\<open>SetKeyValue\<close> returns
  with the store as it was and no event at all (so no log line). Setting a value a second
  time, after a call that returned, is such a call; and whether the first call returned
  or not, the store after two calls is the store after one.
\<close>

theorem SetKeyValue_same_value_noop:
  "(map_index (parameters c) key = Some val \<longrightarrow> SetKeyValue c key val = Returns (c, []))
   \<and> (SetKeyValue c key val = Returns (c', evs) \<longrightarrow> SetKeyValue c' key val = Returns (c', []))
   \<and> fst (state_of (SetKeyValue (fst (state_of (SetKeyValue c key val))) key val))
       = fst (state_of (SetKeyValue c key val))"
proof (intro conjI impI)
  assume "map_index (parameters c) key = Some val"
  then show "SetKeyValue c key val = Returns (c, [])"
    by (simp add: SetKeyValue_def)
next
  assume "SetKeyValue c key val = Returns (c', evs)"
  then have "map_index (parameters c') key = Some val"
    by (auto simp: SetKeyValue_def map_assign_def map_index_def Let_def
        split: if_splits option.splits)
  then show "SetKeyValue c' key val = Returns (c', [])"
    by (simp add: SetKeyValue_def)
next
  show "fst (state_of (SetKeyValue (fst (state_of (SetKeyValue c key val))) key val))
       = fst (state_of (SetKeyValue c key val))"
  proof (cases "parameters c")
    case None
    then show ?thesis
      by (simp add: SetKeyValue_def map_assign_def map_index_def)
  next
    case (Some m)
    then have "returns (SetKeyValue c key val)"
      by (simp add: SetKeyValue_def map_assign_def Let_def)
    then obtain c1 evs1 where r: "SetKeyValue c key val = Returns (c1, evs1)"
      by (cases "SetKeyValue c key val") auto
    then have "map_index (parameters c1) key = Some val"
      by (auto simp: SetKeyValue_def map_assign_def map_index_def Let_def
          split: if_splits option.splits)
    then have "SetKeyValue c1 key val = Returns (c1, [])"
      by (simp add: SetKeyValue_def)
    with r show ?thesis by simp
  qed
qed

theorem SetKeyValue_same_value_noop_witness:
  "map_index (parameters old_store) ''a'' = Some ''0''
   \<and> SetKeyValue old_store ''a'' ''0'' = Returns (old_store, [])
   \<and> SetKeyValue app_store ''b'' ''2''
       = Returns (app_store\<lparr>parameters := Some [''a'' \<mapsto> ''0'', ''b'' \<mapsto> ''2'']\<rparr>,
                  [Log (SetKeyValue_storing ''b'' ''2'')])
   \<and> SetKeyValue (app_store\<lparr>parameters := Some [''a'' \<mapsto> ''0'', ''b'' \<mapsto> ''2'']\<rparr>) ''b'' ''2''
       = Returns (app_store\<lparr>parameters := Some [''a'' \<mapsto> ''0'', ''b'' \<mapsto> ''2'']\<rparr>, [])"
proof -
  have h: "map_index (parameters old_store) ''a'' = Some ''0''"
    by (simp add: old_store_def map_index_def)
  have r: "SetKeyValue app_store ''b'' ''2''
       = Returns (app_store\<lparr>parameters := Some [''a'' \<mapsto> ''0'', ''b'' \<mapsto> ''2'']\<rparr>,
                  [Log (SetKeyValue_storing ''b'' ''2'')])"
    by (simp add: SetKeyValue_def app_store_def map_index_def map_assign_def)
  from SetKeyValue_same_value_noop [of old_store "''a''" "''0''"] h
    SetKeyValue_same_value_noop [of app_store "''b''" "''2''", THEN conjunct2, THEN conjunct1] r
  show ?thesis by blast
qed

text \<open>
  C10. The logging flag of the store that \<^verbatim>\<open>NewWithContext\<close> or \<^verbatim>\<open>New\<close> builds is the
  one value of \<^verbatim>\<open>shouldLog\<close> when there is exactly one, and \<^verbatim>\<open>DefaultShouldLog\<close> when
  there is none or when there are two or more (which are then ignored).
\<close>

theorem logging_toggle_initialised:
  "ShouldLogUpdates (fst (state_of (NewWithContext env dflt name [b]))) = b
   \<and> ShouldLogUpdates (fst (state_of (NewWithContext env dflt name []))) = dflt
   \<and> ShouldLogUpdates (fst (state_of (NewWithContext env dflt name (b1 # b2 # bs)))) = dflt
   \<and> ShouldLogUpdates (fst (state_of (New env dflt name [b]))) = b
   \<and> ShouldLogUpdates (fst (state_of (New env dflt name []))) = dflt
   \<and> ShouldLogUpdates (fst (state_of (New env dflt name (b1 # b2 # bs)))) = dflt"
  by (simp add: New_def NewWithContext_def update_fields)

theorem logging_toggle_initialised_witness:
  "ShouldLogUpdates (fst (state_of (New env_app True ''missing.conf'' [False]))) = False
   \<and> ShouldLogUpdates (fst (state_of (New env_app True ''missing.conf'' []))) = True
   \<and> ShouldLogUpdates (fst (state_of (New env_app True ''missing.conf'' [False, False]))) = True"
  using logging_toggle_initialised [of env_app True "''missing.conf''" False False False "[]"]
  by blast

text \<open>
  C9. A key that the map holds is still held after \<^verbatim>\<open>SetKeyValue\<close>, \<^verbatim>\<open>update\<close>,
  \<^verbatim>\<open>Update\<close> and \<^verbatim>\<open>SetFilename\<close>, and with its old value unless the call sets this key
  itself: \<^verbatim>\<open>SetKeyValue\<close> by its argument, a reconciliation by a line of the file it
  reads, which for \<^verbatim>\<open>SetFilename\<close> is the new file.
\<close>

theorem no_key_removed:
  "map_index (parameters c) k = Some v \<longrightarrow>
     (\<exists>v'. map_index (parameters (fst (state_of (SetKeyValue c key val)))) k = Some v'
            \<and> (k \<noteq> key \<longrightarrow> v' = v))
     \<and> (\<exists>v'. map_index (parameters (fst (state_of (update env c)))) k = Some v'
            \<and> (k \<notin> set (file_keys env (filename c)) \<longrightarrow> v' = v))
     \<and> (\<exists>v'. map_index (parameters (fst (state_of (Update env c)))) k = Some v'
            \<and> (k \<notin> set (file_keys env (filename c)) \<longrightarrow> v' = v))
     \<and> (\<exists>v'. map_index (parameters (fst (state_of (SetFilename env c name)))) k = Some v'
            \<and> (k \<notin> set (file_keys env name) \<longrightarrow> v' = v))"
proof (intro impI conjI)
  assume a: "map_index (parameters c) k = Some v"
  then show "\<exists>v'. map_index (parameters (fst (state_of (SetKeyValue c key val)))) k = Some v'
            \<and> (k \<noteq> key \<longrightarrow> v' = v)"
    by (auto simp: SetKeyValue_def map_assign_def map_index_def Let_def split: option.splits)
  from a show "\<exists>v'. map_index (parameters (fst (state_of (update env c)))) k = Some v'
            \<and> (k \<notin> set (file_keys env (filename c)) \<longrightarrow> v' = v)"
    by (rule update_keeps)
  from a show "\<exists>v'. map_index (parameters (fst (state_of (Update env c)))) k = Some v'
            \<and> (k \<notin> set (file_keys env (filename c)) \<longrightarrow> v' = v)"
    unfolding Update_def by (rule update_keeps)
  show "\<exists>v'. map_index (parameters (fst (state_of (SetFilename env c name)))) k = Some v'
            \<and> (k \<notin> set (file_keys env name) \<longrightarrow> v' = v)"
  proof (cases "filename c = name")
    case True
    with update_keeps [OF a, of env] show ?thesis by (simp add: SetFilename_def)
  next
    case False
    from a have "map_index (parameters (c\<lparr>filename := name, lastupdate := 0\<rparr>)) k = Some v" by simp
    from update_keeps [OF this, of env] False show ?thesis by (simp add: SetFilename_def)
  qed
qed

lemma file_keys_app: "file_keys env_app ''app.conf'' = [''a'', ''b'']"
  by (simp add: file_keys_def env_app_def tokens_app split_a1 split_b2)

lemma file_keys_old: "file_keys env_app ''old.conf'' = []"
  by (simp add: file_keys_def env_app_def)

theorem no_key_removed_witness:
  "map_index (parameters old_store) ''c'' = Some ''3''
   \<and> ''c'' \<noteq> ''b''
   \<and> map_index (parameters (fst (state_of (SetKeyValue old_store ''b'' ''2'')))) ''c'' = Some ''3''
   \<and> ''c'' \<notin> set (file_keys env_app (filename old_store))
   \<and> map_index (parameters (fst (state_of (update env_app old_store)))) ''c'' = Some ''3''
   \<and> map_index (parameters (fst (state_of (Update env_app old_store)))) ''c'' = Some ''3''
   \<and> ''c'' \<notin> set (file_keys env_app ''app.conf'')
   \<and> map_index (parameters (fst (state_of (SetFilename env_app old_store ''app.conf'')))) ''c'' = Some ''3''"
proof -
  have h: "map_index (parameters old_store) ''c'' = Some ''3''"
    by (simp add: old_store_def map_index_def)
  have k: "''c'' \<notin> set (file_keys env_app (filename old_store))"
    "''c'' \<notin> set (file_keys env_app ''app.conf'')" "''c'' \<noteq> ''b''"
    by (simp_all add: file_keys_app file_keys_old old_store_def)
  from no_key_removed [of old_store "''c''" "''3''" "''b''" "''2''" env_app "''app.conf''"] h k
  show ?thesis by auto
qed

lemma os_calls_mem: "is_os_call e \<Longrightarrow> (e \<in> set (os_calls evs)) = (e \<in> set evs)"
  by (simp add: os_calls_def)

lemma update_opens:
  "(OsOpen (filename c) \<in> set (snd (state_of (update env c)))) =
     (\<exists>modTime. os_Stat env (filename c) = Inr modTime \<and> sint (lastupdate c) < modTime)"
proof (cases "os_Stat env (filename c)")
  case (Inl err)
  then show ?thesis by (simp add: update_stat_fails)
next
  case (Inr modTime)
  have "(OsOpen (filename c) \<in> set (snd (state_of (update env c)))) =
      (OsOpen (filename c) \<in> set (os_calls (snd (state_of (update env c)))))"
    by (simp add: os_calls_mem)
  also have "\<dots> = (sint (lastupdate c) < modTime)"
    by (simp add: update_os_calls [OF Inr])
  finally show ?thesis using Inr by simp
qed

text \<open>
  C4 does not hold of the code for every store. The gate is as the claim says: the file
  is opened exactly when the stat gives a modification time strictly after
  \<^verbatim>\<open>lastupdate\<close>, and otherwise the store is unchanged. But on a store that a
  constructor returned, a newer file is not applied. \<^verbatim>\<open>New\<close> returns such a store for
  \<^verbatim>\<open>app.conf\<close> while the file does not exist yet; once the file holds \<^verbatim>\<open>a=1\<close> and
  \<^verbatim>\<open>b=2\<close> with a modification time strictly after \<^verbatim>\<open>lastupdate\<close>, \<^verbatim>\<open>Update\<close> opens it,
  parses the first line and panics on the nil map: no key is set, and \<^verbatim>\<open>lastupdate\<close> is
  still 0.
\<close>

theorem newer_file_not_applied_on_constructed_store:
  "New env_epoch True ''app.conf'' [] = Returns (fresh ''app.conf'' True, [OsStat ''app.conf''])
   \<and> os_Stat env_app (filename (fresh ''app.conf'' True)) = Inr 1700000000000000000
   \<and> sint (lastupdate (fresh ''app.conf'' True)) < 1700000000000000000
   \<and> os_Open env_app (filename (fresh ''app.conf'' True)) = Inr (''a=1'' @ [CHR 0x0A] @ ''b=2'')
   \<and> Update env_app (fresh ''app.conf'' True) =
       Panics (fresh ''app.conf'' True,
         [OsStat ''app.conf'', OsOpen ''app.conf'', Log (update_storing ''a'' ''1'')])
   \<and> \<not> returns (Update env_app (fresh ''app.conf'' True))
   \<and> Get (fst (state_of (Update env_app (fresh ''app.conf'' True)))) ''a'' = []
   \<and> Get (fst (state_of (Update env_app (fresh ''app.conf'' True)))) ''b'' = []
   \<and> lastupdate (fst (state_of (Update env_app (fresh ''app.conf'' True)))) = 0"
proof -
  have 0: "New env_epoch True ''app.conf'' [] =
      Returns (fresh ''app.conf'' True, [OsStat ''app.conf''])"
    apply (simp only: New_def NewWithContext_def update_def)
    apply (simp add: env_epoch_def fresh_def)
    done
  have 1: "os_Stat env_app (filename (fresh ''app.conf'' True)) = Inr 1700000000000000000"
    "sint (lastupdate (fresh ''app.conf'' True)) < 1700000000000000000"
    "os_Open env_app (filename (fresh ''app.conf'' True)) = Inr (''a=1'' @ [CHR 0x0A] @ ''b=2'')"
    by (simp_all add: env_app_def app_conf_def fresh_def)
  have 2: "Update env_app (fresh ''app.conf'' True) =
       Panics (fresh ''app.conf'' True,
         [OsStat ''app.conf'', OsOpen ''app.conf'', Log (update_storing ''a'' ''1'')])"
    apply (simp only: Update_def update_def)
    apply (simp add: env_app_def fresh_def After_Unix)
    apply (simp add: tokens_app split_a1 map_index_def map_assign_def Let_def)
    done
  have 3: "Get (fresh ''app.conf'' True) ''a'' = []" "Get (fresh ''app.conf'' True) ''b'' = []"
    "lastupdate (fresh ''app.conf'' True) = 0"
    by (simp_all add: Get_def fresh_def map_index_def)
  from 0 1 2 3 show ?thesis by simp
qed

lemma supplied_keys_empty:
  "(supplied_keys ts = []) = (\<forall>t\<in>set ts. isl (SplitConfigurationFileLine t))"
  by (induction ts) (auto split: sum.splits)

lemma update_returns_unparsable:
  assumes "os_Stat env (filename c) = Inr modTime" "sint (lastupdate c) < modTime"
    "os_Open env (filename c) = Inr contents"
    "\<forall>t\<in>set (scanner_tokens contents). isl (SplitConfigurationFileLine t)"
  shows "returns (update env c)"
  using assms(4)
    scan_loop_no_keys [of "scanner_tokens contents" "(c, [OsStat (filename c), OsOpen (filename c)])"]
  by (simp add: update_scans [OF assms(1-3)] outcome_case_returns supplied_keys_empty)

lemma update_lastupdate:
  assumes "os_Stat env (filename c) = Inr modTime" "sint (lastupdate c) < modTime"
    "os_Open env (filename c) = Inr contents" "returns (update env c)"
  shows "lastupdate (fst (state_of (update env c))) = UnixNano modTime"
proof -
  from assms(4) obtain c' evs where r: "update env c = Returns (c', evs)"
    by (cases "update env c") auto
  from update_bindings(2) [OF assms(1-3) r] r show ?thesis by simp
qed

lemma update_unchanged:
  assumes "(\<exists>err. os_Stat env (filename c) = Inl err)
     \<or> (\<exists>t. os_Stat env (filename c) = Inr t \<and> \<not> sint (lastupdate c) < t)
     \<or> (\<exists>err. os_Open env (filename c) = Inl err)"
  shows "returns (update env c) \<and> fst (state_of (update env c)) = c"
proof (cases rule: update_cases [of env c])
  case (scans modTime contents)
  with assms show ?thesis by auto
qed (simp_all add: update_stat_fails update_not_after update_open_fails)

text \<open>
  C3, as the code has it. \<^verbatim>\<open>lastupdate\<close> is an \<^verbatim>\<open>int64\<close> of nanoseconds. When the stat
  succeeds, the modification time is strictly after \<^verbatim>\<open>lastupdate\<close> and the file opens, a
  pass that returns has set \<^verbatim>\<open>lastupdate\<close> to \<^verbatim>\<open>ModTime().UnixNano()\<close>, which is the
  modification time itself when that lies within \<open>- 2 ^ 63\<close> and \<open>2 ^ 63 - 1\<close> nanoseconds of
  the epoch; the pass returns when every scanned line fails to parse, and when the map is
  allocated. When the stat fails, the modification time is not strictly after, or the
  open fails, the pass returns and \<^verbatim>\<open>lastupdate\<close> is what it was.
\<close>

theorem lastupdate_set_by_completed_pass:
  "(os_Stat env (filename c) = Inr modTime \<and> sint (lastupdate c) < modTime
      \<and> os_Open env (filename c) = Inr contents \<longrightarrow>
      (returns (update env c) \<longrightarrow> lastupdate (fst (state_of (update env c))) = UnixNano modTime)
      \<and> ((\<forall>t\<in>set (scanner_tokens contents). isl (SplitConfigurationFileLine t))
            \<longrightarrow> returns (update env c))
      \<and> (parameters c \<noteq> None \<longrightarrow> returns (update env c))
      \<and> (- (2 ^ 63) \<le> modTime \<and> modTime < 2 ^ 63 \<longrightarrow> sint (UnixNano modTime) = modTime))
   \<and> ((\<exists>err. os_Stat env (filename c) = Inl err)
        \<or> (\<exists>t. os_Stat env (filename c) = Inr t \<and> \<not> sint (lastupdate c) < t)
        \<or> (\<exists>err. os_Open env (filename c) = Inl err) \<longrightarrow>
        returns (update env c) \<and> lastupdate (fst (state_of (update env c))) = lastupdate c)"
proof (intro conjI impI)
  assume a: "os_Stat env (filename c) = Inr modTime \<and> sint (lastupdate c) < modTime
      \<and> os_Open env (filename c) = Inr contents"
  then have s: "os_Stat env (filename c) = Inr modTime" "sint (lastupdate c) < modTime"
    "os_Open env (filename c) = Inr contents" by simp_all
  show "lastupdate (fst (state_of (update env c))) = UnixNano modTime" if "returns (update env c)"
    using s that by (rule update_lastupdate)
  show "returns (update env c)"
    if "\<forall>t\<in>set (scanner_tokens contents). isl (SplitConfigurationFileLine t)"
    using s that by (rule update_returns_unparsable)
  show "returns (update env c)" if "parameters c \<noteq> None"
    using that by (rule update_allocated)
  show "sint (UnixNano modTime) = modTime" if "- (2 ^ 63) \<le> modTime \<and> modTime < 2 ^ 63"
    using that by (simp add: UnixNano_in_range)
next
  assume "(\<exists>err. os_Stat env (filename c) = Inl err)
        \<or> (\<exists>t. os_Stat env (filename c) = Inr t \<and> \<not> sint (lastupdate c) < t)
        \<or> (\<exists>err. os_Open env (filename c) = Inl err)"
  from update_unchanged [OF this]
  show "returns (update env c)" "lastupdate (fst (state_of (update env c))) = lastupdate c"
    by simp_all
qed

lemma NewWithContext_fresh:
  "NewWithContext env dflt name shouldLog =
     update env (fresh name (if length shouldLog = 1 then shouldLog ! 0 else dflt))"
  by (simp add: NewWithContext_def fresh_def)

lemma update_far:
  "update env_far (fresh ''app.conf'' True) =
     Returns ((fresh ''app.conf'' True)\<lparr>lastupdate := UnixNano 9223372036854775808\<rparr>,
       [OsStat ''app.conf'', OsOpen ''app.conf'',
        Log (update_error_parsing ''# no settings'' ErrMissingDelimiter)])"
  apply (simp only: update_def)
  apply (simp add: env_far_def fresh_def After_Unix)
  apply (simp add: tokens_comment split_comment errors_Is_def)
  done

text \<open>
  The claim C3 as the specification words it fails on a modification time that
  \<^verbatim>\<open>int64\<close> nanoseconds cannot hold. The constructor's own pass over such a file returns
  and leaves in \<^verbatim>\<open>lastupdate\<close> an instant in the year 1677, not the modification time.
\<close>

theorem lastupdate_wraps_counterexample:
  "os_Stat env_far (filename (fresh ''app.conf'' True)) = Inr 9223372036854775808
   \<and> sint (lastupdate (fresh ''app.conf'' True)) < 9223372036854775808
   \<and> os_Open env_far (filename (fresh ''app.conf'' True)) = Inr ''# no settings''
   \<and> NewWithContext env_far True ''app.conf'' [] = update env_far (fresh ''app.conf'' True)
   \<and> returns (update env_far (fresh ''app.conf'' True))
   \<and> time_Unix 0 (lastupdate (fst (state_of (update env_far (fresh ''app.conf'' True)))))
        = - 9223372036854775808
   \<and> time_Unix 0 (lastupdate (fst (state_of (update env_far (fresh ''app.conf'' True)))))
        \<noteq> 9223372036854775808"
proof -
  have 1: "os_Stat env_far (filename (fresh ''app.conf'' True)) = Inr 9223372036854775808"
    "sint (lastupdate (fresh ''app.conf'' True)) < 9223372036854775808"
    "os_Open env_far (filename (fresh ''app.conf'' True)) = Inr ''# no settings''"
    by (simp_all add: env_far_def fresh_def)
  have 2: "NewWithContext env_far True ''app.conf'' [] = update env_far (fresh ''app.conf'' True)"
    by (simp add: NewWithContext_fresh)
  have 3: "returns (update env_far (fresh ''app.conf'' True))"
    by (simp add: update_far)
  have 4: "time_Unix 0 (lastupdate (fst (state_of (update env_far (fresh ''app.conf'' True)))))
        = - 9223372036854775808"
    by (simp add: update_far time_Unix_def UnixNano_far)
  from 1 2 3 4 show ?thesis by simp
qed

theorem lastupdate_set_by_completed_pass_witness:
  "os_Stat env_app (filename app_store) = Inr 1700000000000000000
   \<and> sint (lastupdate app_store) < 1700000000000000000
   \<and> os_Open env_app (filename app_store) = Inr app_conf
   \<and> parameters app_store \<noteq> None
   \<and> returns (update env_app app_store)
   \<and> lastupdate (fst (state_of (update env_app app_store))) = UnixNano 1700000000000000000
   \<and> sint (UnixNano 1700000000000000000) = 1700000000000000000
   \<and> os_Stat env_far (filename (fresh ''app.conf'' True)) = Inr 9223372036854775808
   \<and> sint (lastupdate (fresh ''app.conf'' True)) < 9223372036854775808
   \<and> os_Open env_far (filename (fresh ''app.conf'' True)) = Inr ''# no settings''
   \<and> scanner_tokens ''# no settings'' = [''# no settings'']
   \<and> isl (SplitConfigurationFileLine ''# no settings'')
   \<and> returns (update env_far (fresh ''app.conf'' True))
   \<and> os_Stat env_app (filename old_store) = Inl ErrNotExist
   \<and> returns (update env_app old_store)
   \<and> lastupdate (fst (state_of (update env_app old_store))) = lastupdate old_store"
proof -
  have hA: "os_Stat env_app (filename app_store) = Inr 1700000000000000000
      \<and> sint (lastupdate app_store) < 1700000000000000000
      \<and> os_Open env_app (filename app_store) = Inr app_conf"
    by (simp add: env_app_def app_store_def sint_2020)
  have p: "parameters app_store \<noteq> None" by (simp add: app_store_def)
  have rng: "- (2 ^ 63) \<le> (1700000000000000000::int) \<and> (1700000000000000000::int) < 2 ^ 63"
    by simp
  note A = lastupdate_set_by_completed_pass [of env_app app_store 1700000000000000000 app_conf,
      THEN conjunct1, THEN mp, OF hA]
  from A p have a3: "returns (update env_app app_store)" by blast
  from A a3 have a1: "lastupdate (fst (state_of (update env_app app_store)))
      = UnixNano 1700000000000000000" by blast
  from A rng have a4: "sint (UnixNano 1700000000000000000) = 1700000000000000000" by blast
  have hB: "os_Stat env_far (filename (fresh ''app.conf'' True)) = Inr 9223372036854775808
      \<and> sint (lastupdate (fresh ''app.conf'' True)) < 9223372036854775808
      \<and> os_Open env_far (filename (fresh ''app.conf'' True)) = Inr ''# no settings''"
    by (simp add: env_far_def fresh_def)
  have u: "\<forall>t\<in>set (scanner_tokens ''# no settings''). isl (SplitConfigurationFileLine t)"
    "isl (SplitConfigurationFileLine ''# no settings'')"
    by (simp_all add: tokens_comment split_comment)
  note B = lastupdate_set_by_completed_pass [of env_far "fresh ''app.conf'' True"
      9223372036854775808 "''# no settings''", THEN conjunct1, THEN mp, OF hB]
  from B u have b2: "returns (update env_far (fresh ''app.conf'' True))" by blast
  have hC: "os_Stat env_app (filename old_store) = Inl ErrNotExist"
    by (simp add: env_app_def old_store_def)
  note C = lastupdate_set_by_completed_pass [of env_app old_store, THEN conjunct2, THEN mp]
  from C hC have c: "returns (update env_app old_store)
      \<and> lastupdate (fst (state_of (update env_app old_store))) = lastupdate old_store"
    by blast
  from hA p a3 a1 a4 hB u(2) b2 hC c tokens_comment show ?thesis by blast
qed








text \<open>
  C1 does not hold of the code. \<^verbatim>\<open>NewWithContext\<close> never makes the map, and a pass that
  writes to the nil map panics, so every store a constructor returns still has the nil
  map: \<^verbatim>\<open>Get\<close> gives the empty string for every key, and \<^verbatim>\<open>SetKeyValue\<close> panics for every
  key and value (after logging, when the flag is set).
\<close>

theorem store_from_New_panics_on_set:
  "(NewWithContext env dflt name shouldLog = Returns (c, evs) \<longrightarrow>
      parameters c = None \<and> Get c key = []
      \<and> SetKeyValue c key val =
          Panics (c, if ShouldLogUpdates c then [Log (SetKeyValue_storing key val)] else []))
   \<and> (New env dflt name shouldLog = Returns (c, evs) \<longrightarrow>
      parameters c = None \<and> Get c key = []
      \<and> SetKeyValue c key val =
          Panics (c, if ShouldLogUpdates c then [Log (SetKeyValue_storing key val)] else []))"
proof -
  have "parameters c = None \<and> Get c key = []
      \<and> SetKeyValue c key val =
          Panics (c, if ShouldLogUpdates c then [Log (SetKeyValue_storing key val)] else [])"
    if r: "NewWithContext env dflt name shouldLog = Returns (c, evs)"
  proof -
    let ?f = "fresh name (if length shouldLog = 1 then shouldLog ! 0 else dflt)"
    have "parameters ?f = None" by (simp add: fresh_def)
    from update_nil_map [OF this, of env] r have p: "parameters c = None"
      by (simp add: NewWithContext_fresh)
    then show ?thesis
      by (simp add: Get_def SetKeyValue_def map_index_def map_assign_def)
  qed
  then show ?thesis by (simp add: New_def)
qed

lemma New_missing:
  "New env_app True ''missing.conf'' [] = Returns (fresh ''missing.conf'' True, [OsStat ''missing.conf''])"
  apply (simp only: New_def NewWithContext_fresh update_def)
  apply (simp add: env_app_def fresh_def)
  done

theorem store_from_New_panics_on_set_witness:
  "New env_app True ''missing.conf'' [] = Returns (fresh ''missing.conf'' True, [OsStat ''missing.conf''])
   \<and> ShouldLogUpdates (fresh ''missing.conf'' True)
   \<and> parameters (fresh ''missing.conf'' True) = None
   \<and> Get (fresh ''missing.conf'' True) ''a'' = []
   \<and> SetKeyValue (fresh ''missing.conf'' True) ''a'' ''1''
        = Panics (fresh ''missing.conf'' True, [Log (SetKeyValue_storing ''a'' ''1'')])"
proof -
  have l: "ShouldLogUpdates (fresh ''missing.conf'' True)" by (simp add: fresh_def)
  from store_from_New_panics_on_set [of env_app True "''missing.conf''" "[]"
      "fresh ''missing.conf'' True" "[OsStat ''missing.conf'']" "''a''" "''1''",
      THEN conjunct2, THEN mp, OF New_missing] l New_missing
  show ?thesis by simp
qed

text \<open>
  C2 does not hold of the code. For \<^verbatim>\<open>app.conf\<close> of the two lines \<^verbatim>\<open>a=1\<close> and \<^verbatim>\<open>b=2\<close>,
  modified after the epoch, the constructor's pass parses the first line, does not find
  its key in the nil map, logs, and panics on the assignment: \<^verbatim>\<open>New\<close> returns no store.
\<close>

theorem New_panics_on_two_lines:
  "os_Stat env_app ''app.conf'' = Inr 1700000000000000000
   \<and> os_Open env_app ''app.conf'' = Inr (''a=1'' @ [CHR 0x0A] @ ''b=2'')
   \<and> New env_app True ''app.conf'' [] =
       Panics (fresh ''app.conf'' True,
         [OsStat ''app.conf'', OsOpen ''app.conf'', Log (update_storing ''a'' ''1'')])
   \<and> \<not> returns (New env_app True ''app.conf'' [])"
proof -
  have 1: "os_Stat env_app ''app.conf'' = Inr 1700000000000000000"
    "os_Open env_app ''app.conf'' = Inr (''a=1'' @ [CHR 0x0A] @ ''b=2'')"
    by (simp_all add: env_app_def app_conf_def)
  have 2: "New env_app True ''app.conf'' [] =
       Panics (fresh ''app.conf'' True,
         [OsStat ''app.conf'', OsOpen ''app.conf'', Log (update_storing ''a'' ''1'')])"
    apply (simp only: New_def NewWithContext_fresh update_def)
    apply (simp add: env_app_def fresh_def After_Unix)
    apply (simp add: tokens_app split_a1 map_index_def map_assign_def Let_def)
    done
  from 1 2 show ?thesis by simp
qed

end
